theory Spec2Isabelle
  imports Complex_Main
begin

section \<open>Python values\<close>

text \<open>
  The detectors read JSON records through \<^verbatim>\<open>d['k']\<close>, which raises
  \<^verbatim>\<open>KeyError\<close> on a missing key, and through \<^verbatim>\<open>d.get('k')\<close>, which
  yields \<^verbatim>\<open>None\<close>. A field that may be missing is an \<open>option\<close>; an
  exception is the left summand of a result.
\<close>

datatype error = KeyError string

definition bindE :: "error + 'a \<Rightarrow> ('a \<Rightarrow> error + 'b) \<Rightarrow> error + 'b" where
  "bindE m f = (case m of Inl e \<Rightarrow> Inl e | Inr v \<Rightarrow> f v)"

text \<open>\<^verbatim>\<open>d[k]\<close> for a field that may be absent.\<close>

definition require :: "string \<Rightarrow> 'a option \<Rightarrow> error + 'a" where
  "require k v = (case v of None \<Rightarrow> Inl (KeyError k) | Some x \<Rightarrow> Inr x)"

text \<open>A \<^verbatim>\<open>for\<close> loop whose body may raise: the state is the loop's mutable variables.\<close>

fun foldE :: "('a \<Rightarrow> 's \<Rightarrow> error + 's) \<Rightarrow> 'a list \<Rightarrow> 's \<Rightarrow> error + 's" where
  "foldE f [] s = Inr s"
| "foldE f (x # xs) s = (case f x s of Inl e \<Rightarrow> Inl e | Inr s' \<Rightarrow> foldE f xs s')"

fun mapE :: "('a \<Rightarrow> error + 'b) \<Rightarrow> 'a list \<Rightarrow> error + 'b list" where
  "mapE f [] = Inr []"
| "mapE f (x # xs) =
     (case f x of Inl e \<Rightarrow> Inl e
      | Inr y \<Rightarrow> (case mapE f xs of Inl e \<Rightarrow> Inl e | Inr ys \<Rightarrow> Inr (y # ys)))"

text \<open>Truthiness of an optional string (\<^verbatim>\<open>None\<close> and \<^verbatim>\<open>''\<close> are falsy) and of
  an optional number (\<^verbatim>\<open>None\<close> and \<^verbatim>\<open>0\<close> are falsy).\<close>

definition truthy_str :: "string option \<Rightarrow> bool" where
  "truthy_str v = (case v of None \<Rightarrow> False | Some s \<Rightarrow> s \<noteq> [])"

definition truthy_num :: "rat option \<Rightarrow> bool" where
  "truthy_num v = (case v of None \<Rightarrow> False | Some x \<Rightarrow> x \<noteq> 0)"

text \<open>\<^verbatim>\<open>int(x)\<close> on a number: truncation towards zero.\<close>

definition py_int :: "rat \<Rightarrow> int" where
  "py_int x = (if 0 \<le> x then \<lfloor>x\<rfloor> else \<lceil>x\<rceil>)"

text \<open>
  A Python float is an IEEE 754 binary64 number. The model holds a float as the
  rational it denotes and rounds the exact result of every float operation to the
  nearest float, ties to even: \<open>fl\<close>, with 53 significant bits. \<open>binade x\<close> is the
  exponent \<open>e\<close> with \<open>2^e \<le> |x| < 2^(e+1)\<close>. Infinities, NaN, overflow and
  subnormal results are outside the model.
\<close>

fun bits :: "nat \<Rightarrow> nat" where
  "bits n = (if n = 0 then 0 else Suc (bits (n div 2)))"

declare bits.simps [simp del]

definition pow2 :: "int \<Rightarrow> rat" where
  "pow2 e = (if 0 \<le> e then 2 ^ nat e else 1 / 2 ^ nat (- e))"

definition round_half_even :: "rat \<Rightarrow> int" where
  "round_half_even y =
     (let n = \<lfloor>y\<rfloor>; r = y - of_int n
      in if r < 1 / 2 then n
         else if 1 / 2 < r then n + 1
         else if even n then n else n + 1)"

definition binade :: "rat \<Rightarrow> int" where
  "binade x =
     (if 1 \<le> \<bar>x\<bar> then int (bits (nat \<lfloor>\<bar>x\<bar>\<rfloor>)) - 1
      else - int (bits (nat (\<lceil>1 / \<bar>x\<bar>\<rceil> - 1))))"

definition fl :: "rat \<Rightarrow> rat" where
  "fl x =
     (if x = 0 then 0
      else let ulp = pow2 (binade x - 52)
           in sgn x * of_int (round_half_even (\<bar>x\<bar> / ulp)) * ulp)"

text \<open>
  \<^verbatim>\<open>defaultdict(list)\<close>: keys in insertion order (the order \<^verbatim>\<open>items()\<close> iterates),
  \<^verbatim>\<open>d[k].append(v)\<close> and \<^verbatim>\<open>d.get(k, [])\<close>.
\<close>

type_synonym 'a grouping = "(string \<times> 'a list) list"

fun dd_append :: "'a grouping \<Rightarrow> string \<Rightarrow> 'a \<Rightarrow> 'a grouping" where
  "dd_append [] k v = [(k, [v])]"
| "dd_append ((k', vs) # g) k v =
     (if k' = k then (k', vs @ [v]) # g else (k', vs) # dd_append g k v)"

fun dd_get :: "'a grouping \<Rightarrow> string \<Rightarrow> 'a list" where
  "dd_get [] k = []"
| "dd_get ((k', vs) # g) k = (if k' = k then vs else dd_get g k)"

text \<open>\<^verbatim>\<open>s.add(x)\<close> on a set kept as the list of its elements in first-insertion order.\<close>

definition set_add :: "'a list \<Rightarrow> 'a \<Rightarrow> 'a list" where
  "set_add xs x = (if x \<in> set xs then xs else xs @ [x])"

section \<open>Records of the input streams and of the incident log\<close>

text \<open>
  Timestamps are ISO-8601 strings that the code parses with
  \<^verbatim>\<open>datetime.fromisoformat\<close>; the model holds the parsed instant as whole seconds
  (the sources' precision), so a difference of timestamps is \<^verbatim>\<open>total_seconds()\<close>.
  Weights, dwell times and accuracies are Python floats, held as the rationals they
  denote; arithmetic on them is rounded by \<open>fl\<close>. A field that is present holds a
  value of its type: a JSON \<^verbatim>\<open>null\<close> or a value of another type, on which the code
  raises \<^verbatim>\<open>TypeError\<close>, is outside the model.
\<close>

record payload =
  sku :: "string option"
  customer_id :: "string option"
  weight_g :: "rat option"
  location :: "string option"
  customer_count :: "int option"
  average_dwell_time :: "rat option"
  predicted_product :: "string option"
  accuracy :: "rat option"

record event =
  station_id :: "string option"
  timestamp :: "int option"
  data :: payload

text \<open>An inventory snapshot: its \<^verbatim>\<open>data\<close> dictionary maps SKU to quantity; the
  list holds its items in iteration order.\<close>

record snapshot =
  snap_timestamp :: "int option"
  quantities :: "(string \<times> int) list"

text \<open>A cell of the product catalogue (a CSV file): missing or empty, text that
  \<^verbatim>\<open>float()\<close> rejects, or text that \<^verbatim>\<open>float()\<close> reads as a number.\<close>

datatype csv_cell = Empty_cell | Not_a_number | Number rat

record product =
  SKU :: "string option"
  Weight_g :: csv_cell

datatype event_data =
    ScannerAvoidance string "string option" "string option"
  | BarcodeSwitching string "string option" string "string option"
  | WeightDiscrepancies "string option" "string option" string rat rat
  | LongQueueLength string int
  | LongWaitTime string rat
  | UnexpectedSystemsCrash string int
  | InventoryDiscrepancy string int int
  | SuccesOperation string "string option" "string option"

record incident =
  inc_timestamp :: int
  event_id :: string
  event_data :: event_data

section \<open>Event identifiers\<close>

text \<open>\<^verbatim>\<open>f'E{n:03d}'\<close>: the decimal digits of \<open>n\<close>, padded with zeros to three.\<close>

definition digit_char :: "nat \<Rightarrow> char" where
  "digit_char d = char_of (48 + d)"

fun digits :: "nat \<Rightarrow> string" where
  "digits n = (if n < 10 then [digit_char n] else digits (n div 10) @ [digit_char (n mod 10)])"

declare digits.simps [simp del]

definition fmt_03d :: "nat \<Rightarrow> string" where
  "fmt_03d n = replicate (3 - length (digits n)) (CHR ''0'') @ digits n"

definition fmt_event_id :: "nat \<Rightarrow> string" where
  "fmt_event_id n = CHR ''E'' # fmt_03d n"

text \<open>Reading a decimal numeral back, to state what an identifier denotes.\<close>

definition digit_val :: "char \<Rightarrow> nat" where
  "digit_val c = of_char c - 48"

definition decimal_val :: "string \<Rightarrow> nat" where
  "decimal_val s = foldl (\<lambda>acc c. 10 * acc + digit_val c) 0 s"

text \<open>\<^verbatim>\<open>events.append({...}); event_counter += 1\<close> on the pair of the two variables.\<close>

definition emit :: "int \<Rightarrow> event_data \<Rightarrow> incident list \<times> nat \<Rightarrow> incident list \<times> nat" where
  "emit ts d st =
     (fst st @ [\<lparr>inc_timestamp = ts, event_id = fmt_event_id (snd st), event_data = d\<rparr>],
      snd st + 1)"

section \<open>Batch detectors (event_detector.py)\<close>

subsection \<open>Scanner avoidance\<close>

text \<open>Grouping the RFID readings seen in the scan area by station.\<close>

definition sa_group_step :: "event \<Rightarrow> event grouping \<Rightarrow> error + event grouping" where
  "sa_group_step rfid g =
     (if location (data rfid) = Some ''IN_SCAN_AREA''
      then bindE (require ''station_id'' (station_id rfid)) (\<lambda>s. Inr (dd_append g s rfid))
      else Inr g)"

text \<open>Collecting the SKUs read within the window of one POS transaction.\<close>

definition sa_window_step ::
  "int \<Rightarrow> int \<Rightarrow> event \<Rightarrow> string option list \<Rightarrow> error + string option list" where
  "sa_window_step time_window_seconds pos_time rfid rfid_skus =
     bindE (require ''timestamp'' (timestamp rfid)) (\<lambda>rfid_time.
       if \<bar>rfid_time - pos_time\<bar> \<le> time_window_seconds
       then Inr (set_add rfid_skus (sku (data rfid)))
       else Inr rfid_skus)"

text \<open>
  The body of the loop over the POS transactions. \<^verbatim>\<open>rfid_skus - {pos_sku}\<close> is a
  Python set, iterated in an order the language does not fix: \<open>set_order\<close> stands for
  that order, as a function of the elements in insertion order.
\<close>

definition sa_pos_step ::
  "(string option list \<Rightarrow> string option list) \<Rightarrow> int \<Rightarrow> event grouping \<Rightarrow> event \<Rightarrow>
   incident list \<times> nat \<Rightarrow> error + incident list \<times> nat" where
  "sa_pos_step set_order time_window_seconds rfid_by_station pos st =
     bindE (require ''station_id'' (station_id pos)) (\<lambda>station.
     bindE (require ''timestamp'' (timestamp pos)) (\<lambda>pos_time.
     bindE (foldE (sa_window_step time_window_seconds pos_time)
              (dd_get rfid_by_station station) []) (\<lambda>rfid_skus.
       Inr (foldl (\<lambda>acc unscanned_sku.
                    emit pos_time
                      (ScannerAvoidance station (customer_id (data pos)) unscanned_sku) acc)
              st (set_order (removeAll (sku (data pos)) rfid_skus))))))"

definition detect_scanner_avoidance ::
  "(string option list \<Rightarrow> string option list) \<Rightarrow> event list \<Rightarrow> event list \<Rightarrow> int \<Rightarrow>
   error + incident list" where
  "detect_scanner_avoidance set_order pos_transactions rfid_readings time_window_seconds =
     bindE (foldE sa_group_step rfid_readings []) (\<lambda>rfid_by_station.
     bindE (foldE (sa_pos_step set_order time_window_seconds rfid_by_station)
              pos_transactions ([], 0)) (\<lambda>st. Inr (fst st)))"

subsection \<open>Barcode switching\<close>

definition bs_group_step :: "event \<Rightarrow> event grouping \<Rightarrow> error + event grouping" where
  "bs_group_step recog g =
     (if (case accuracy (data recog) of None \<Rightarrow> 0 | Some a \<Rightarrow> a) > 1 / 2
      then bindE (require ''station_id'' (station_id recog)) (\<lambda>s. Inr (dd_append g s recog))
      else Inr g)"

text \<open>The inner loop, left by \<^verbatim>\<open>break\<close> at the first recognition that differs.\<close>

fun bs_scan :: "int \<Rightarrow> int \<Rightarrow> string option \<Rightarrow> event list \<Rightarrow> error + string option" where
  "bs_scan time_window_seconds pos_time scanned_sku [] = Inr None"
| "bs_scan time_window_seconds pos_time scanned_sku (recog # rest) =
     bindE (require ''timestamp'' (timestamp recog)) (\<lambda>recog_time.
       if \<bar>recog_time - pos_time\<bar> \<le> time_window_seconds
          \<and> truthy_str (predicted_product (data recog))
          \<and> predicted_product (data recog) \<noteq> scanned_sku
       then Inr (predicted_product (data recog))
       else bs_scan time_window_seconds pos_time scanned_sku rest)"

definition bs_pos_step ::
  "int \<Rightarrow> event grouping \<Rightarrow> event \<Rightarrow> incident list \<times> nat \<Rightarrow> error + incident list \<times> nat" where
  "bs_pos_step time_window_seconds recognition_by_station pos st =
     bindE (require ''station_id'' (station_id pos)) (\<lambda>station.
     bindE (require ''timestamp'' (timestamp pos)) (\<lambda>pos_time.
     bindE (bs_scan time_window_seconds pos_time (sku (data pos))
              (dd_get recognition_by_station station)) (\<lambda>found.
       case found of
         None \<Rightarrow> Inr st
       | Some predicted_sku \<Rightarrow>
           Inr (emit pos_time
                  (BarcodeSwitching station (customer_id (data pos)) predicted_sku
                     (sku (data pos))) st))))"

definition detect_barcode_switching ::
  "event list \<Rightarrow> event list \<Rightarrow> int \<Rightarrow> error + incident list" where
  "detect_barcode_switching pos_transactions product_recognition time_window_seconds =
     bindE (foldE bs_group_step product_recognition []) (\<lambda>recognition_by_station.
     bindE (foldE (bs_pos_step time_window_seconds recognition_by_station)
              pos_transactions ([], 0)) (\<lambda>st. Inr (fst st)))"

subsection \<open>Weight discrepancies\<close>

definition product_weights_step :: "(string \<rightharpoonup> rat) \<Rightarrow> product \<Rightarrow> (string \<rightharpoonup> rat)" where
  "product_weights_step product_weights p =
     (case SKU p of
        None \<Rightarrow> product_weights
      | Some s \<Rightarrow>
          if s = [] then product_weights
          else (case Weight_g p of
                  Number w \<Rightarrow> product_weights(s \<mapsto> w)
                | _ \<Rightarrow> product_weights))"

definition build_product_weights :: "product list \<Rightarrow> (string \<rightharpoonup> rat)" where
  "build_product_weights products_list = foldl product_weights_step Map.empty products_list"

text \<open>\<^verbatim>\<open>sku in product_weights\<close>, then \<^verbatim>\<open>product_weights[sku]\<close>.\<close>

definition lookup_sku :: "(string \<rightharpoonup> 'v) \<Rightarrow> string option \<Rightarrow> 'v option" where
  "lookup_sku m k = (case k of None \<Rightarrow> None | Some s \<Rightarrow> m s)"

definition wd_pos_step ::
  "rat \<Rightarrow> (string \<rightharpoonup> rat) \<Rightarrow> event \<Rightarrow> incident list \<times> nat \<Rightarrow> error + incident list \<times> nat" where
  "wd_pos_step tolerance_percent product_weights pos st =
     bindE (require ''station_id'' (station_id pos)) (\<lambda>station.
       case lookup_sku product_weights (sku (data pos)) of
         None \<Rightarrow> Inr st
       | Some expected_weight \<Rightarrow>
           if truthy_num (weight_g (data pos)) then
             (case weight_g (data pos) of
                None \<Rightarrow> Inr st
              | Some actual_weight \<Rightarrow>
                  let weight_diff = \<bar>fl (actual_weight - expected_weight)\<bar>;
                      tolerance = fl (expected_weight * fl (tolerance_percent / 100))
                  in if weight_diff > tolerance
                     then bindE (require ''timestamp'' (timestamp pos)) (\<lambda>ts.
                            Inr (emit ts
                                   (WeightDiscrepancies (Some station) (customer_id (data pos))
                                      (case sku (data pos) of None \<Rightarrow> [] | Some s \<Rightarrow> s)
                                      (of_int (py_int expected_weight))
                                      (of_int (py_int actual_weight))) st))
                     else Inr st)
           else Inr st)"

definition detect_weight_discrepancies ::
  "event list \<Rightarrow> product list \<Rightarrow> rat \<Rightarrow> error + incident list" where
  "detect_weight_discrepancies pos_transactions products_list tolerance_percent =
     bindE (foldE (wd_pos_step tolerance_percent (build_product_weights products_list))
              pos_transactions ([], 0)) (\<lambda>st. Inr (fst st))"

subsection \<open>Long queues and long waits\<close>

definition lq_step :: "int \<Rightarrow> event \<Rightarrow> incident list \<times> nat \<Rightarrow> error + incident list \<times> nat" where
  "lq_step threshold queue st =
     (let count = (case customer_count (data queue) of None \<Rightarrow> 0 | Some c \<Rightarrow> c) in
      bindE (require ''station_id'' (station_id queue)) (\<lambda>station.
        if count > threshold
        then bindE (require ''timestamp'' (timestamp queue)) (\<lambda>ts.
               Inr (emit ts (LongQueueLength station count) st))
        else Inr st))"

definition detect_long_queues :: "event list \<Rightarrow> int \<Rightarrow> error + incident list" where
  "detect_long_queues queue_monitoring threshold =
     bindE (foldE (lq_step threshold) queue_monitoring ([], 0)) (\<lambda>st. Inr (fst st))"

definition lw_step :: "rat \<Rightarrow> event \<Rightarrow> incident list \<times> nat \<Rightarrow> error + incident list \<times> nat" where
  "lw_step threshold_seconds queue st =
     (let avg_dwell_time = (case average_dwell_time (data queue) of None \<Rightarrow> 0 | Some d \<Rightarrow> d) in
      bindE (require ''station_id'' (station_id queue)) (\<lambda>station.
        if avg_dwell_time > threshold_seconds
        then bindE (require ''timestamp'' (timestamp queue)) (\<lambda>ts.
               Inr (emit ts (LongWaitTime station (of_int (py_int avg_dwell_time))) st))
        else Inr st))"

definition detect_long_wait_times :: "event list \<Rightarrow> rat \<Rightarrow> error + incident list" where
  "detect_long_wait_times queue_monitoring threshold_seconds =
     bindE (foldE (lw_step threshold_seconds) queue_monitoring ([], 0)) (\<lambda>st. Inr (fst st))"

subsection \<open>System crashes\<close>

text \<open>\<^verbatim>\<open>xs.sort(key=lambda x: datetime.fromisoformat(x['timestamp']))\<close>: the keys are
  computed first (and a missing one raises), then the list is sorted stably by key.\<close>

definition sort_by_timestamp :: "event list \<Rightarrow> error + event list" where
  "sort_by_timestamp xs =
     bindE (mapE (\<lambda>x. require ''timestamp'' (timestamp x)) xs) (\<lambda>keys.
       Inr (map snd (sort_key fst (zip keys xs))))"

definition crash_group_step :: "event grouping \<Rightarrow> event \<Rightarrow> event grouping" where
  "crash_group_step station_events ev =
     (case station_id ev of
        None \<Rightarrow> station_events
      | Some s \<Rightarrow> if s = [] then station_events else dd_append station_events s ev)"

text \<open>The loop over \<^verbatim>\<open>range(len(station_event_list) - 1)\<close>: every pair of neighbours.\<close>

fun crash_scan ::
  "int \<Rightarrow> string \<Rightarrow> event list \<Rightarrow> incident list \<times> nat \<Rightarrow> error + incident list \<times> nat" where
  "crash_scan gap_threshold_seconds station (a # b # rest) st =
     bindE (require ''timestamp'' (timestamp a)) (\<lambda>current_time.
     bindE (require ''timestamp'' (timestamp b)) (\<lambda>next_time.
       let gap = next_time - current_time in
       crash_scan gap_threshold_seconds station (b # rest)
         (if gap \<ge> gap_threshold_seconds
          then emit next_time (UnexpectedSystemsCrash station gap) st
          else st)))"
| "crash_scan gap_threshold_seconds station [a] st = Inr st"
| "crash_scan gap_threshold_seconds station [] st = Inr st"

definition crash_station_step ::
  "int \<Rightarrow> string \<times> event list \<Rightarrow> incident list \<times> nat \<Rightarrow> error + incident list \<times> nat" where
  "crash_station_step gap_threshold_seconds entry st =
     bindE (sort_by_timestamp (snd entry)) (\<lambda>station_event_list.
       crash_scan gap_threshold_seconds (fst entry) station_event_list st)"

definition detect_system_crashes :: "event list \<Rightarrow> int \<Rightarrow> error + incident list" where
  "detect_system_crashes all_events gap_threshold_seconds =
     bindE (foldE (crash_station_step gap_threshold_seconds)
              (foldl crash_group_step [] all_events) ([], 0)) (\<lambda>st. Inr (fst st))"

subsection \<open>Inventory discrepancies\<close>

text \<open>\<^verbatim>\<open>if sku in expected_inventory: expected_inventory[sku] -= 1\<close> on the dictionary's
  items.\<close>

definition decrement :: "string \<Rightarrow> (string \<times> int) list \<Rightarrow> (string \<times> int) list" where
  "decrement s entries = map (\<lambda>kv. if fst kv = s then (fst kv, snd kv - 1) else kv) entries"

definition inv_pos_step ::
  "int \<Rightarrow> event \<Rightarrow> (string \<times> int) list \<Rightarrow> error + (string \<times> int) list" where
  "inv_pos_step snapshot_time pos expected_inventory =
     bindE (require ''timestamp'' (timestamp pos)) (\<lambda>pos_time.
       if pos_time > snapshot_time
       then (case sku (data pos) of
               None \<Rightarrow> Inr expected_inventory
             | Some s \<Rightarrow> Inr (decrement s expected_inventory))
       else Inr expected_inventory)"

definition inv_compare_step ::
  "rat \<Rightarrow> int \<Rightarrow> (string \<times> int) list \<Rightarrow> incident list \<times> nat \<Rightarrow> string \<times> int \<Rightarrow>
   incident list \<times> nat" where
  "inv_compare_step threshold_percent ts inventory_data st entry =
     (let expected_qty = snd entry;
          actual_qty = (case map_of inventory_data (fst entry) of None \<Rightarrow> 0 | Some q \<Rightarrow> q)
      in if actual_qty > 0
            \<and> fl (fl (of_int \<bar>expected_qty - actual_qty\<bar> / of_int actual_qty) * 100)
                > threshold_percent
            \<and> \<bar>expected_qty - actual_qty\<bar> > 5
         then emit ts (InventoryDiscrepancy (fst entry) actual_qty expected_qty) st
         else st)"

definition detect_inventory_discrepancies ::
  "snapshot list \<Rightarrow> event list \<Rightarrow> rat \<Rightarrow> error + incident list" where
  "detect_inventory_discrepancies inventory_snapshots pos_transactions threshold_percent =
     (case inventory_snapshots of
        [] \<Rightarrow> Inr []
      | initial_snapshot # later \<Rightarrow>
          bindE (require ''timestamp'' (snap_timestamp initial_snapshot)) (\<lambda>snapshot_time.
          bindE (foldE (inv_pos_step snapshot_time) pos_transactions
                   (quantities initial_snapshot)) (\<lambda>expected_inventory.
            Inr (fst (foldl
                        (inv_compare_step threshold_percent snapshot_time
                           (quantities initial_snapshot))
                        ([], 0) expected_inventory)))))"

subsection \<open>Success operations\<close>

definition so_group_step :: "event \<Rightarrow> event grouping \<Rightarrow> error + event grouping" where
  "so_group_step rfid g =
     bindE (require ''station_id'' (station_id rfid)) (\<lambda>s. Inr (dd_append g s rfid))"

text \<open>The inner loop, left by \<^verbatim>\<open>break\<close> at the first match.\<close>

fun so_scan :: "int \<Rightarrow> int \<Rightarrow> string option \<Rightarrow> event list \<Rightarrow> error + bool" where
  "so_scan time_window_seconds pos_time pos_sku [] = Inr False"
| "so_scan time_window_seconds pos_time pos_sku (rfid # rest) =
     bindE (require ''timestamp'' (timestamp rfid)) (\<lambda>rfid_time.
       if \<bar>rfid_time - pos_time\<bar> \<le> time_window_seconds \<and> sku (data rfid) = pos_sku
       then Inr True
       else so_scan time_window_seconds pos_time pos_sku rest)"

definition so_pos_step ::
  "int \<Rightarrow> event grouping \<Rightarrow> event \<Rightarrow> incident list \<times> nat \<Rightarrow> error + incident list \<times> nat" where
  "so_pos_step time_window_seconds rfid_by_station pos st =
     bindE (require ''station_id'' (station_id pos)) (\<lambda>station.
     bindE (require ''timestamp'' (timestamp pos)) (\<lambda>pos_time.
     bindE (so_scan time_window_seconds pos_time (sku (data pos))
              (dd_get rfid_by_station station)) (\<lambda>rfid_match.
       if rfid_match
       then Inr (emit pos_time
                   (SuccesOperation station (customer_id (data pos)) (sku (data pos))) st)
       else Inr st)))"

definition detect_success_operations ::
  "event list \<Rightarrow> event list \<Rightarrow> int \<Rightarrow> error + incident list" where
  "detect_success_operations pos_transactions rfid_readings time_window_seconds =
     bindE (foldE so_group_step rfid_readings []) (\<lambda>rfid_by_station.
     bindE (foldE (so_pos_step time_window_seconds rfid_by_station)
              pos_transactions ([], 0)) (\<lambda>st. Inr (fst st)))"

section \<open>The batch pipeline (data_loader.py, main.py)\<close>

text \<open>The decoded content of the input directory.\<close>

record input_data =
  pos_transactions :: "event list"
  rfid_readings :: "event list"
  queue_monitoring :: "event list"
  product_recognition :: "event list"
  inventory_snapshots :: "snapshot list"
  products_list :: "product list"

text \<open>\<^verbatim>\<open>load_all_data\<close> sorts the four event streams by timestamp, in this order.\<close>

definition load_all_data :: "input_data \<Rightarrow> error + input_data" where
  "load_all_data d =
     bindE (sort_by_timestamp (pos_transactions d)) (\<lambda>p.
     bindE (sort_by_timestamp (rfid_readings d)) (\<lambda>r.
     bindE (sort_by_timestamp (queue_monitoring d)) (\<lambda>q.
     bindE (sort_by_timestamp (product_recognition d)) (\<lambda>c.
       Inr (d\<lparr>pos_transactions := p, rfid_readings := r, queue_monitoring := q,
              product_recognition := c\<rparr>)))))"

text \<open>\<^verbatim>\<open>for idx, event in enumerate(all_detected_events): event['event_id'] = ...\<close>\<close>

definition renumber :: "incident list \<Rightarrow> incident list" where
  "renumber xs = map (\<lambda>(idx, ev). ev\<lparr>event_id := fmt_event_id idx\<rparr>) (enumerate 0 xs)"

text \<open>The eight detector calls of \<^verbatim>\<open>process_events\<close>, in the order of the code, each
  with its default thresholds; the result is the concatenation of what they return.\<close>

definition detect_all ::
  "(string option list \<Rightarrow> string option list) \<Rightarrow> input_data \<Rightarrow> error + incident list" where
  "detect_all set_order d =
     bindE (detect_scanner_avoidance set_order (pos_transactions d) (rfid_readings d) 10) (\<lambda>sa.
     bindE (detect_barcode_switching (pos_transactions d) (product_recognition d) 5) (\<lambda>bs.
     bindE (detect_weight_discrepancies (pos_transactions d) (products_list d) 20) (\<lambda>wd.
     bindE (detect_long_queues (queue_monitoring d) 5) (\<lambda>lq.
     bindE (detect_long_wait_times (queue_monitoring d) 300) (\<lambda>lw.
     bindE (detect_system_crashes
              (pos_transactions d @ rfid_readings d @ queue_monitoring d
                 @ product_recognition d) 120) (\<lambda>cr.
     bindE (detect_inventory_discrepancies (inventory_snapshots d) (pos_transactions d) 10)
       (\<lambda>dis.
     bindE (detect_success_operations (pos_transactions d) (rfid_readings d) 10) (\<lambda>so.
       Inr (sa @ bs @ wd @ lq @ lw @ cr @ dis @ so)))))))))"

text \<open>\<^verbatim>\<open>process_events\<close>: the list of incidents it writes to the output file.\<close>

definition process_events ::
  "(string option list \<Rightarrow> string option list) \<Rightarrow> input_data \<Rightarrow> error + incident list" where
  "process_events set_order d =
     bindE (load_all_data d) (\<lambda>loaded.
     bindE (detect_all set_order loaded) (\<lambda>all_detected_events.
       Inr (renumber (sort_key inc_timestamp all_detected_events))))"

section \<open>Streaming detectors (Team01_sentinel/src/main.py)\<close>

text \<open>
  One decoded line of the live feed. The \<^verbatim>\<open>data\<close> dictionary of its event is read
  in two ways: by named key for a sensor record, and by iteration over its
  (SKU, count) items for an inventory record; the model holds both readings.
\<close>

record stream_data =
  dataset :: "string option"
  stream_timestamp :: "int option"
  stream_station_id :: "string option"
  stream_fields :: payload
  stream_items :: "(string \<times> int) list"

text \<open>The global \<^verbatim>\<open>inventory_levels\<close>.\<close>

type_synonym ledger = "string \<rightharpoonup> int"

text \<open>The loop over the snapshot's items, left by \<^verbatim>\<open>return\<close> at the first SKU whose
  tracked quantity differs by more than 5; the ledger is updated before the
  incident is built from \<^verbatim>\<open>stream_data['timestamp']\<close>.\<close>

fun reconcile_loop ::
  "ledger \<Rightarrow> int option \<Rightarrow> (string \<times> int) list \<Rightarrow> ledger \<times> (error + incident option)" where
  "reconcile_loop inventory_levels ts [] = (inventory_levels, Inr None)"
| "reconcile_loop inventory_levels ts ((s, actual_count) # rest) =
     (case inventory_levels s of
        None \<Rightarrow> reconcile_loop inventory_levels ts rest
      | Some expected \<Rightarrow>
          if \<bar>expected - actual_count\<bar> > 5
          then (inventory_levels(s \<mapsto> actual_count),
                bindE (require ''timestamp'' ts) (\<lambda>t.
                  Inr (Some \<lparr>inc_timestamp = t, event_id = ''E007'',
                             event_data = InventoryDiscrepancy s expected actual_count\<rparr>)))
          else reconcile_loop inventory_levels ts rest)"

definition detect_inventory_discrepancy ::
  "ledger \<Rightarrow> stream_data \<Rightarrow> ledger \<times> (error + incident option)" where
  "detect_inventory_discrepancy inventory_levels sd =
     (if dataset sd = Some ''POS_Transactions'' then
        (case sku (stream_fields sd) of
           None \<Rightarrow> (inventory_levels, Inr None)
         | Some s \<Rightarrow>
             if s = [] then (inventory_levels, Inr None)
             else (case inventory_levels s of
                     None \<Rightarrow> (inventory_levels, Inr None)
                   | Some q \<Rightarrow> (inventory_levels(s \<mapsto> q - 1), Inr None)))
      else if dataset sd = Some ''Current_inventory_data'' then
        reconcile_loop inventory_levels (stream_timestamp sd) (stream_items sd)
      else (inventory_levels, Inr None))"

text \<open>The ledger after a sequence of feed records: only this detector writes it.\<close>

definition run_ledger :: "ledger \<Rightarrow> stream_data list \<Rightarrow> ledger" where
  "run_ledger inventory_levels feed =
     foldl (\<lambda>levels sd. fst (detect_inventory_discrepancy levels sd)) inventory_levels feed"

text \<open>
  \<^verbatim>\<open>detect_weight_discrepancy\<close>; \<open>products\<close> maps a SKU to the \<^verbatim>\<open>weight\<close> cell
  of its catalogue row. The comparison and the construction of the incident stand in
  a \<^verbatim>\<open>try\<close> block that catches \<^verbatim>\<open>ValueError\<close> and \<^verbatim>\<open>KeyError\<close>: a cell that
  \<^verbatim>\<open>float()\<close> rejects, or a record without \<^verbatim>\<open>timestamp\<close>, is logged and gives no
  incident.
\<close>

definition detect_weight_discrepancy ::
  "stream_data \<Rightarrow> (string \<rightharpoonup> csv_cell) \<Rightarrow> error + incident option" where
  "detect_weight_discrepancy sd products =
     (if dataset sd = Some ''POS_Transactions'' then
        (case (sku (stream_fields sd), weight_g (stream_fields sd)) of
           (Some s, Some actual_weight) \<Rightarrow>
             if s = [] then Inr None
             else (case products s of
                     Some (Number expected_weight) \<Rightarrow>
                       if \<not> (fl (expected_weight * fl (95 / 100)) \<le> actual_weight
                              \<and> actual_weight \<le> fl (expected_weight * fl (105 / 100)))
                       then (case stream_timestamp sd of
                               None \<Rightarrow> Inr None
                             | Some t \<Rightarrow>
                                 Inr (Some \<lparr>inc_timestamp = t, event_id = ''E003'',
                                            event_data =
                                              WeightDiscrepancies (stream_station_id sd)
                                                (customer_id (stream_fields sd)) s
                                                expected_weight actual_weight\<rparr>))
                       else Inr None
                   | _ \<Rightarrow> Inr None)
         | _ \<Rightarrow> Inr None)
      else Inr None)"

section \<open>Notions used to state the properties\<close>

text \<open>A snapshot entry whose SKU is tracked with a quantity more than 5 away.\<close>

definition divergent :: "ledger \<Rightarrow> string \<times> int \<Rightarrow> bool" where
  "divergent levels entry =
     (case levels (fst entry) of None \<Rightarrow> False | Some expected \<Rightarrow> \<bar>expected - snd entry\<bar> > 5)"

definition no_fields :: payload where
  "no_fields = \<lparr>sku = None, customer_id = None, weight_g = None, location = None,
     customer_count = None, average_dwell_time = None, predicted_product = None,
     accuracy = None\<rparr>"

text \<open>A feed record carrying an inventory snapshot of three SKUs.\<close>

definition snapshot_record :: stream_data where
  "snapshot_record = \<lparr>dataset = Some ''Current_inventory_data'', stream_timestamp = Some 0,
     stream_station_id = None, stream_fields = no_fields,
     stream_items = [(''1234'', 48), (''5678'', 90), (''9999'', 0)]\<rparr>"


definition scenario_C_record :: stream_data where
  "scenario_C_record = \<lparr>dataset = Some ''Current_inventory_data'',
     stream_timestamp = Some 0, stream_station_id = None, stream_fields = no_fields,
     stream_items = [(''5678'', 90)]\<rparr>"

definition pos_record :: "string \<Rightarrow> stream_data" where
  "pos_record s = \<lparr>dataset = Some ''POS_Transactions'', stream_timestamp = Some 0,
     stream_station_id = Some ''SCC1'', stream_fields = no_fields\<lparr>sku := Some s\<rparr>,
     stream_items = []\<rparr>"

definition pos_count :: "string \<Rightarrow> stream_data list \<Rightarrow> nat" where
  "pos_count s feed =
     length (filter (\<lambda>sd. dataset sd = Some ''POS_Transactions''
                          \<and> sku (stream_fields sd) = Some s) feed)"

text \<open>A catalogue row and POS records carrying a scanned weight.\<close>

definition light_product :: product where
  "light_product = \<lparr>SKU = Some ''A'', Weight_g = Number (5 / 4)\<rparr>"

definition weighed_pos :: "rat \<Rightarrow> event" where
  "weighed_pos w = \<lparr>station_id = Some ''SCC1'', timestamp = Some 0,
     data = no_fields\<lparr>sku := Some ''A'', weight_g := Some w\<rparr>\<rparr>"

definition weighed_record :: "rat \<Rightarrow> stream_data" where
  "weighed_record w = \<lparr>dataset = Some ''POS_Transactions'', stream_timestamp = Some 0,
     stream_station_id = Some ''SCC1'',
     stream_fields = no_fields\<lparr>sku := Some ''A'', weight_g := Some w\<rparr>,
     stream_items = []\<rparr>"

text \<open>Appending a list of (timestamp, event data) pairs to the detector's variables.\<close>

definition emit_all :: "(int \<times> event_data) list \<Rightarrow> incident list \<times> nat \<Rightarrow> incident list \<times> nat" where
  "emit_all ds st = foldl (\<lambda>acc d. emit (fst d) (snd d) acc) st ds"

text \<open>An incident without its identifier.\<close>

definition incident_body :: "incident \<Rightarrow> int \<times> event_data" where
  "incident_body i = (inc_timestamp i, event_data i)"

text \<open>The timestamp of an event that has one.\<close>

definition ts_of :: "event \<Rightarrow> int" where
  "ts_of e = (case timestamp e of None \<Rightarrow> 0 | Some t \<Rightarrow> t)"

text \<open>
  The System Crash rule in the words of the specification: for every station (a
  non-empty station identifier, in order of first appearance), its events of all
  sources in chronological order (stable), and one incident for every pair of
  consecutive events whose gap reaches the threshold, carrying the gap.
\<close>

definition stations_of :: "event list \<Rightarrow> string list" where
  "stations_of evs =
     foldl set_add [] (concat (map (\<lambda>e. case station_id e of None \<Rightarrow> []
                                         | Some s \<Rightarrow> if s = [] then [] else [s]) evs))"

definition gaps :: "int \<Rightarrow> string \<Rightarrow> event list \<Rightarrow> (int \<times> event_data) list" where
  "gaps thr s ys =
     map (\<lambda>p. (ts_of (snd p), UnexpectedSystemsCrash s (ts_of (snd p) - ts_of (fst p))))
       (filter (\<lambda>p. ts_of (snd p) - ts_of (fst p) \<ge> thr) (zip ys (tl ys)))"

definition crash_spec :: "int \<Rightarrow> event list \<Rightarrow> (int \<times> event_data) list" where
  "crash_spec thr evs =
     concat (map (\<lambda>s. gaps thr s (sort_key ts_of (filter (\<lambda>e. station_id e = Some s) evs)))
               (stations_of evs))"

text \<open>The non-empty station identifiers of a stream, with repetitions.\<close>

definition truthy_ids :: "event list \<Rightarrow> string list" where
  "truthy_ids evs = concat (map (\<lambda>e. case station_id e of None \<Rightarrow> []
                                         | Some s \<Rightarrow> if s = [] then [] else [s]) evs)"

text \<open>Two stations; station SCC2 is silent for 150 seconds.\<close>

definition plain_event :: "string \<Rightarrow> int \<Rightarrow> event" where
  "plain_event s t = \<lparr>station_id = Some s, timestamp = Some t, data = no_fields\<rparr>"

definition scenario_D :: "event list" where
  "scenario_D = [plain_event ''SCC1'' 0, plain_event ''SCC2'' 0, plain_event ''SCC1'' 60,
                 plain_event ''SCC2'' 150]"


text \<open>A POS transaction and an RFID reading in the scan area, with an optional SKU.\<close>

definition pos_event :: "string \<Rightarrow> int \<Rightarrow> string option \<Rightarrow> event" where
  "pos_event s t k = \<lparr>station_id = Some s, timestamp = Some t, data = no_fields\<lparr>sku := k\<rparr>\<rparr>"

definition rfid_event :: "string \<Rightarrow> int \<Rightarrow> string option \<Rightarrow> event" where
  "rfid_event s t k = \<lparr>station_id = Some s, timestamp = Some t,
     data = no_fields\<lparr>sku := k, location := Some ''IN_SCAN_AREA''\<rparr>\<rparr>"

text \<open>
  An input directory: station SCC1 is silent from 0 to 150, the inventory snapshot at
  150 reports 10 of SKU A, and six POS transactions for A follow it.
\<close>

definition demo_input :: input_data where
  "demo_input = \<lparr>
     pos_transactions = [pos_event ''SCC1'' 153 (Some ''A''), pos_event ''SCC1'' 151 (Some ''A''),
        pos_event ''SCC1'' 152 (Some ''A''), pos_event ''SCC1'' 154 (Some ''A''),
        pos_event ''SCC1'' 155 (Some ''A''), pos_event ''SCC1'' 156 (Some ''A'')],
     rfid_readings = [plain_event ''SCC1'' 0, plain_event ''SCC1'' 150],
     queue_monitoring = [],
     product_recognition = [],
     inventory_snapshots = [\<lparr>snap_timestamp = Some 150, quantities = [(''A'', 10)]\<rparr>],
     products_list = []\<rparr>"

text \<open>\<open>demo_input\<close> with a queue record that has no timestamp, and with a POS record
  that has no station identifier.\<close>

definition untimed_input :: input_data where
  "untimed_input = demo_input\<lparr>queue_monitoring :=
     [\<lparr>station_id = Some ''SCC1'', timestamp = None, data = no_fields\<rparr>]\<rparr>"

definition unstationed_input :: input_data where
  "unstationed_input = demo_input\<lparr>pos_transactions :=
     [\<lparr>station_id = None, timestamp = Some 1, data = no_fields\<rparr>]\<rparr>"

text \<open>A catalogue row of 7 g, and a snapshot whose entries all lie within 5 of a ledger
  tracking 50, 100 and 20.\<close>

definition seven_gram_product :: product where
  "seven_gram_product = \<lparr>SKU = Some ''A'', Weight_g = Number 7\<rparr>"





section \<open>Properties\<close>

subsection \<open>The streaming ledger\<close>

lemma reconcile_loop_none:
  "find (divergent levels) entries = None \<Longrightarrow>
   reconcile_loop levels ts entries = (levels, Inr None)"
  by (induction entries) (auto simp: divergent_def split: option.splits if_splits)

lemma reconcile_loop_some:
  "find (divergent levels) entries = Some (s, actual) \<Longrightarrow>
   \<exists>expected. levels s = Some expected \<and>
     reconcile_loop levels ts entries =
       (levels(s \<mapsto> actual),
        bindE (require ''timestamp'' ts) (\<lambda>t.
          Inr (Some \<lparr>inc_timestamp = t, event_id = ''E007'',
                     event_data = InventoryDiscrepancy s expected actual\<rparr>)))"
  by (induction entries) (auto simp: divergent_def split: option.splits if_splits)

text \<open>
  Claim C10. In streaming mode one inventory snapshot gives at most one Inventory
  Discrepancy incident: when no entry of the snapshot diverges from the tracked
  quantity by more than 5, nothing is emitted and the ledger is unchanged; otherwise
  the incident is for the first such entry in iteration order, only that SKU's ledger
  entry is overwritten with the snapshot's quantity, and every other entry of the
  ledger, later divergent SKUs included, keeps its value.
\<close>

theorem snapshot_first_divergent_only:
  assumes "dataset sd = Some ''Current_inventory_data''"
  shows "case find (divergent levels) (stream_items sd) of
           None \<Rightarrow> detect_inventory_discrepancy levels sd = (levels, Inr None)
         | Some (s, actual) \<Rightarrow>
             (\<exists>expected. levels s = Some expected \<and> 5 < \<bar>expected - actual\<bar> \<and>
                snd (detect_inventory_discrepancy levels sd) =
                  (case stream_timestamp sd of
                     None \<Rightarrow> Inl (KeyError ''timestamp'')
                   | Some t \<Rightarrow>
                       Inr (Some \<lparr>inc_timestamp = t, event_id = ''E007'',
                                  event_data = InventoryDiscrepancy s expected actual\<rparr>)))
             \<and> fst (detect_inventory_discrepancy levels sd) s = Some actual
             \<and> (\<forall>k. k \<noteq> s \<longrightarrow> fst (detect_inventory_discrepancy levels sd) k = levels k)"
proof (cases "find (divergent levels) (stream_items sd)")
  case None
  then show ?thesis
    using assms by (simp add: detect_inventory_discrepancy_def reconcile_loop_none)
next
  case (Some entry)
  obtain s actual where e: "entry = (s, actual)" by (cases entry)
  from Some e have f: "find (divergent levels) (stream_items sd) = Some (s, actual)" by simp
  from reconcile_loop_some[OF f, of "stream_timestamp sd"] obtain expected where
    l: "levels s = Some expected" and
    r: "reconcile_loop levels (stream_timestamp sd) (stream_items sd) =
       (levels(s \<mapsto> actual),
        bindE (require ''timestamp'' (stream_timestamp sd)) (\<lambda>t.
          Inr (Some \<lparr>inc_timestamp = t, event_id = ''E007'',
                     event_data = InventoryDiscrepancy s expected actual\<rparr>)))" by blast
  from f have "divergent levels (s, actual)" by (auto simp: find_Some_iff)
  with l have d: "5 < \<bar>expected - actual\<bar>" by (simp add: divergent_def)
  show ?thesis
    using assms f l r d
    by (auto simp: detect_inventory_discrepancy_def bindE_def require_def split: option.splits)
qed

text \<open>The snapshot diverges on 5678 (100 against 90) and on 9999 (20 against 0): only
  5678 is resynchronised.\<close>

theorem snapshot_first_divergent_only_witness:
  "fst (detect_inventory_discrepancy
          [''1234'' \<mapsto> 50, ''5678'' \<mapsto> 100, ''9999'' \<mapsto> 20] snapshot_record) ''5678'' = Some 90
   \<and> fst (detect_inventory_discrepancy
          [''1234'' \<mapsto> 50, ''5678'' \<mapsto> 100, ''9999'' \<mapsto> 20] snapshot_record) ''9999'' = Some 20"
  using snapshot_first_divergent_only
    [of snapshot_record "[''1234'' \<mapsto> 50, ''5678'' \<mapsto> 100, ''9999'' \<mapsto> 20]"]
  by (simp add: snapshot_record_def divergent_def)


lemma reconcile_loop_outcome:
  "reconcile_loop levels ts entries = (levels', out) \<Longrightarrow>
   (out = Inr None \<and> levels' = levels) \<or>
   (\<exists>s e a. (s, a) \<in> set entries \<and> levels s = Some e \<and> 5 < \<bar>e - a\<bar> \<and> levels' = levels(s \<mapsto> a)
      \<and> out = bindE (require ''timestamp'' ts) (\<lambda>t.
          Inr (Some \<lparr>inc_timestamp = t, event_id = ''E007'',
                     event_data = InventoryDiscrepancy s e a\<rparr>)))"
proof (induction entries)
  case Nil
  then show ?case by simp
next
  case (Cons x xs)
  obtain s a where x: "x = (s, a)" by (cases x)
  show ?case
  proof (cases "divergent levels (s, a)")
    case True
    then obtain e where e: "levels s = Some e" "5 < \<bar>e - a\<bar>"
      by (auto simp: divergent_def split: option.splits)
    with Cons.prems x have
      "levels' = levels(s \<mapsto> a)"
      "out = bindE (require ''timestamp'' ts) (\<lambda>t.
          Inr (Some \<lparr>inc_timestamp = t, event_id = ''E007'',
                     event_data = InventoryDiscrepancy s e a\<rparr>))"
      by auto
    with e x show ?thesis
      by (intro disjI2 exI[of _ s] exI[of _ e] exI[of _ a]) simp
  next
    case False
    with Cons.prems x have "reconcile_loop levels ts xs = (levels', out)"
      by (auto simp: divergent_def split: option.splits if_splits)
    from Cons.IH[OF this] show ?thesis by auto
  qed
qed

text \<open>
  Against claim C5 as stated: from a ledger tracking 0 for A, one POS transaction for
  A leaves - 1.
\<close>

theorem ledger_goes_negative:
  "run_ledger [''A'' \<mapsto> 0] [pos_record ''A''] ''A'' = Some (- 1)"
  by (simp add: run_ledger_def detect_inventory_discrepancy_def pos_record_def no_fields_def)

lemma step_bound:
  assumes "fst (detect_inventory_discrepancy levels sd) s = Some q"
      and "\<forall>entry \<in> set (stream_items sd). 0 \<le> snd entry"
  shows "\<exists>q0. levels s = Some q0 \<and>
           (0 \<le> q \<or> q0 - int (pos_count s [sd]) \<le> q)"
proof (cases "dataset sd = Some ''POS_Transactions''")
  case True
  with assms(1) show ?thesis
    by (auto simp: detect_inventory_discrepancy_def pos_count_def
             split: option.splits if_splits)
next
  case False
  note np = this
  show ?thesis
  proof (cases "dataset sd = Some ''Current_inventory_data''")
    case True
    obtain levels' out where r: "detect_inventory_discrepancy levels sd = (levels', out)"
      by (cases "detect_inventory_discrepancy levels sd")
    from True r
    have "reconcile_loop levels (stream_timestamp sd) (stream_items sd) = (levels', out)"
      by (simp add: detect_inventory_discrepancy_def)
    from reconcile_loop_outcome[OF this] assms r show ?thesis
      by (auto simp: pos_count_def np split: if_splits)
  next
    case False
    with np assms(1) show ?thesis
      by (simp add: detect_inventory_discrepancy_def pos_count_def)
  qed
qed

lemma run_ledger_snoc:
  "run_ledger levels (feed @ [sd]) = fst (detect_inventory_discrepancy (run_ledger levels feed) sd)"
  by (simp add: run_ledger_def)

lemma pos_count_snoc: "pos_count s (feed @ [sd]) = pos_count s feed + pos_count s [sd]"
  by (simp add: pos_count_def)

lemma run_ledger_bound:
  assumes "\<forall>s q. levels s = Some q \<longrightarrow> 0 \<le> q"
      and "\<forall>sd \<in> set feed. \<forall>entry \<in> set (stream_items sd). 0 \<le> snd entry"
      and "run_ledger levels feed s = Some q"
  shows "- int (pos_count s feed) \<le> q"
  using assms(2,3)
proof (induction feed arbitrary: q rule: rev_induct)
  case Nil
  with assms(1) show ?case by (simp add: run_ledger_def pos_count_def)
next
  case (snoc sd feed)
  from snoc.prems(2) have "fst (detect_inventory_discrepancy (run_ledger levels feed) sd) s = Some q"
    by (simp add: run_ledger_snoc)
  from step_bound[OF this] snoc.prems(1) obtain q0 where
    q0: "run_ledger levels feed s = Some q0" and
    b: "0 \<le> q \<or> q0 - int (pos_count s [sd]) \<le> q" by auto
  from snoc.IH[OF _ q0] snoc.prems(1) have "- int (pos_count s feed) \<le> q0" by simp
  with b show ?case by (auto simp: pos_count_snoc)
qed

text \<open>
  Claim C5, amended. Starting from non-negative quantities and reconciling against
  snapshots with non-negative quantities, every tracked quantity stays at or above
  minus the number of POS transactions processed for its SKU (a decrement has no
  floor at zero), and a POS transaction for a SKU absent from the ledger changes
  nothing; in the batch detector too a decrement of an absent SKU is a no-op.
\<close>

theorem ledger_lower_bound:
  assumes "\<forall>s q. levels s = Some q \<longrightarrow> 0 \<le> q"
      and "\<forall>sd \<in> set feed. \<forall>entry \<in> set (stream_items sd). 0 \<le> snd entry"
  shows "(\<forall>s q. run_ledger levels feed s = Some q \<longrightarrow> - int (pos_count s feed) \<le> q)
       \<and> (\<forall>sd s. dataset sd = Some ''POS_Transactions'' \<and> sku (stream_fields sd) = Some s
              \<and> levels s = None \<longrightarrow> detect_inventory_discrepancy levels sd = (levels, Inr None))
       \<and> (\<forall>s entries. s \<notin> fst ` set entries \<longrightarrow> decrement s entries = entries)"
proof (intro conjI allI impI)
  fix s q assume "run_ledger levels feed s = Some q"
  from run_ledger_bound[OF assms this] show "- int (pos_count s feed) \<le> q" .
next
  fix sd :: stream_data and s
  assume "dataset sd = Some ''POS_Transactions'' \<and> sku (stream_fields sd) = Some s \<and> levels s = None"
  then show "detect_inventory_discrepancy levels sd = (levels, Inr None)"
    by (simp add: detect_inventory_discrepancy_def)
next
  fix s and entries :: "(string \<times> int) list"
  assume "s \<notin> fst ` set entries"
  then show "decrement s entries = entries"
    unfolding decrement_def by (induction entries) auto
qed

theorem ledger_lower_bound_witness:
  "- int (pos_count ''A'' [pos_record ''A'', pos_record ''B'', scenario_C_record, pos_record ''A'']) \<le> 3
   \<and> run_ledger [''A'' \<mapsto> 5, ''5678'' \<mapsto> 100] [pos_record ''A'', pos_record ''B'', scenario_C_record, pos_record ''A''] ''A'' = Some 3
   \<and> detect_inventory_discrepancy [''A'' \<mapsto> 5, ''5678'' \<mapsto> 100] (pos_record ''B'') = ([''A'' \<mapsto> 5, ''5678'' \<mapsto> 100], Inr None)"
  using ledger_lower_bound[of "[''A'' \<mapsto> 5, ''5678'' \<mapsto> 100]" "[pos_record ''A'', pos_record ''B'', scenario_C_record, pos_record ''A'']"]
  by (simp add: run_ledger_def detect_inventory_discrepancy_def pos_record_def no_fields_def scenario_C_record_def pos_count_def)

subsection \<open>Rounding of concrete numbers\<close>

lemma floor_rat_numeral_div:
  "\<lfloor>(numeral a / numeral b :: rat)\<rfloor> = numeral a div numeral b"
  by (metis floor_divide_of_int_eq of_int_numeral)

lemma ceiling_rat_numeral_div:
  "\<lceil>(numeral a / numeral b :: rat)\<rceil> = - (- numeral a div numeral b)"
proof -
  have "\<lfloor>(of_int (- numeral a) / of_int (numeral b) :: rat)\<rfloor> = - numeral a div numeral b"
    by (rule floor_divide_of_int_eq)
  then show ?thesis by (simp add: ceiling_def)
qed

lemmas fl_eval = fl_def binade_def bits.simps pow2_def round_half_even_def Let_def
  floor_rat_numeral_div ceiling_rat_numeral_div

lemma fl_three_fifths: "fl (3 / 5) = 5404319552844595 / 9007199254740992"
  by (simp add: fl_eval)

lemma fl_sixty_percent: "fl (fl (3 / 5) * 100) = 60"
  by (simp add: fl_three_fifths) (simp add: fl_eval)

subsection \<open>Loops, groupings and sorting\<close>

lemma fmt_event_id_0: "fmt_event_id 0 = ''E000''"
  by code_simp

lemma emit_all_Nil [simp]: "emit_all [] st = st"
  by (simp add: emit_all_def)

lemma emit_all_Cons [simp]: "emit_all (d # ds) st = emit_all ds (emit (fst d) (snd d) st)"
  by (simp add: emit_all_def)

lemma emit_all_append: "emit_all (ds @ es) st = emit_all es (emit_all ds st)"
  by (simp add: emit_all_def)

lemma emit_all_bodies:
  "map incident_body (fst (emit_all ds st)) = map incident_body (fst st) @ ds"
  by (induction ds arbitrary: st) (auto simp: emit_def incident_body_def)

lemma emit_all_counter:
  "snd (emit_all ds st) = snd st + length ds"
  by (induction ds arbitrary: st) (auto simp: emit_def)

lemma emit_all_ids:
  "snd st = length (fst st) \<Longrightarrow> map event_id (fst st) = map fmt_event_id [0..<length (fst st)] \<Longrightarrow>
   map event_id (fst (emit_all ds st)) = map fmt_event_id [0..<length (fst st) + length ds]"
proof (induction ds arbitrary: st)
  case Nil
  then show ?case by simp
next
  case (Cons d ds)
  have "map event_id (fst (emit_all ds (emit (fst d) (snd d) st))) =
        map fmt_event_id [0..<length (fst (emit (fst d) (snd d) st)) + length ds]"
    by (rule Cons.IH) (use Cons.prems in \<open>auto simp: emit_def\<close>)
  then show ?case by (simp add: emit_def)
qed

lemma dd_get_append:
  "dd_get (dd_append g k v) k' = (if k' = k then dd_get g k @ [v] else dd_get g k')"
  by (induction g k v rule: dd_append.induct) auto

lemma keys_dd_append:
  "map fst (dd_append g k v) = set_add (map fst g) k"
  by (induction g k v rule: dd_append.induct) (auto simp: set_add_def)

lemma mapE_timestamps:
  "mapE (\<lambda>x. require ''timestamp'' (timestamp x)) xs =
     (if \<forall>x \<in> set xs. timestamp x \<noteq> None then Inr (map ts_of xs)
      else Inl (KeyError ''timestamp''))"
  by (induction xs) (auto simp: require_def ts_of_def split: option.splits)

lemma map_snd_insort:
  "\<forall>p \<in> set ps. fst p = k (snd p) \<Longrightarrow>
   map snd (insort_key fst (k x, x) ps) = insort_key k x (map snd ps)"
  by (induction ps) auto

lemma decorated_sort:
  "map snd (sort_key fst (zip (map k xs) xs)) = sort_key k xs
   \<and> (\<forall>p \<in> set (sort_key fst (zip (map k xs) xs)). fst p = k (snd p))"
proof (induction xs)
  case Nil
  then show ?case by simp
next
  case (Cons x xs)
  then show ?case by (auto simp: map_snd_insort set_insort_key)
qed

lemma sort_by_timestamp_ok:
  "\<forall>x \<in> set xs. timestamp x \<noteq> None \<Longrightarrow> sort_by_timestamp xs = Inr (sort_key ts_of xs)"
  using decorated_sort[of ts_of xs]
  by (simp add: sort_by_timestamp_def bindE_def mapE_timestamps)

lemma sort_by_timestamp_missing:
  "\<exists>x \<in> set xs. timestamp x = None \<Longrightarrow> sort_by_timestamp xs = Inl (KeyError ''timestamp'')"
  by (auto simp: sort_by_timestamp_def bindE_def mapE_timestamps)

lemma crash_scan_gaps:
  "\<forall>x \<in> set ys. timestamp x \<noteq> None \<Longrightarrow> crash_scan thr s ys st = Inr (emit_all (gaps thr s ys) st)"
proof (induction thr s ys st rule: crash_scan.induct)
  case (1 thr s a b rest st)
  then obtain ta tb where t: "timestamp a = Some ta" "timestamp b = Some tb" by auto
  show ?case
    using 1 t by (auto simp: bindE_def require_def gaps_def ts_of_def Let_def)
qed (simp_all add: gaps_def)

lemma stations_of_alt: "stations_of evs = foldl set_add [] (truthy_ids evs)"
  by (simp add: stations_of_def truthy_ids_def)

lemma crash_groups_get:
  "dd_get (foldl crash_group_step g evs) k =
     (if k = [] then dd_get g k else dd_get g k @ filter (\<lambda>e. station_id e = Some k) evs)"
proof (induction evs arbitrary: g)
  case Nil
  then show ?case by simp
next
  case (Cons e evs)
  show ?case
    unfolding foldl_Cons Cons.IH
    by (cases "station_id e") (auto simp: crash_group_step_def dd_get_append)
qed

lemma crash_groups_keys:
  "map fst (foldl crash_group_step g evs) = foldl set_add (map fst g) (truthy_ids evs)"
proof (induction evs arbitrary: g)
  case Nil
  then show ?case by (simp add: truthy_ids_def)
next
  case (Cons e evs)
  have t: "truthy_ids (e # evs) =
      (case station_id e of None \<Rightarrow> [] | Some s \<Rightarrow> if s = [] then [] else [s]) @ truthy_ids evs"
    by (simp add: truthy_ids_def)
  show ?case
    unfolding foldl_Cons Cons.IH t
    by (cases "station_id e") (auto simp: crash_group_step_def keys_dd_append)
qed

lemma distinct_set_add: "distinct xs \<Longrightarrow> distinct (foldl set_add xs ys)"
  by (induction ys arbitrary: xs) (auto simp: set_add_def)

lemma set_foldl_set_add: "set (foldl set_add xs ys) = set xs \<union> set ys"
  by (induction ys arbitrary: xs) (auto simp: set_add_def)

lemma grouping_entries:
  "distinct (map fst g) \<Longrightarrow> map (\<lambda>k. (k, dd_get g k)) (map fst g) = g"
proof (induction g)
  case Nil
  then show ?case by simp
next
  case (Cons p g)
  obtain k vs where p: "p = (k, vs)" by (cases p)
  from Cons.prems p have nk: "k \<notin> set (map fst g)" and d: "distinct (map fst g)" by auto
  have "map (\<lambda>k'. (k', dd_get ((k, vs) # g) k')) (map fst g) =
        map (\<lambda>k'. (k', dd_get g k')) (map fst g)"
    by (rule map_cong) (use nk in auto)
  with Cons.IH[OF d] p show ?case by simp
qed

lemma crash_stations_fold:
  "\<forall>entry \<in> set entries. \<forall>x \<in> set (snd entry). timestamp x \<noteq> None \<Longrightarrow>
   foldE (crash_station_step thr) entries st =
     Inr (emit_all (concat (map (\<lambda>entry. gaps thr (fst entry) (sort_key ts_of (snd entry)))
                              entries)) st)"
proof (induction entries arbitrary: st)
  case Nil
  then show ?case by simp
next
  case (Cons entry entries)
  from Cons.prems have a: "\<forall>x \<in> set (snd entry). timestamp x \<noteq> None" by simp
  then have b: "\<forall>x \<in> set (sort_key ts_of (snd entry)). timestamp x \<noteq> None" by simp
  have "crash_station_step thr entry st =
          Inr (emit_all (gaps thr (fst entry) (sort_key ts_of (snd entry))) st)"
    by (simp add: crash_station_step_def sort_by_timestamp_ok[OF a] bindE_def
        crash_scan_gaps[OF b])
  with Cons show ?case by (simp add: emit_all_append)
qed

lemma detect_system_crashes_spec:
  assumes "\<forall>e \<in> set evs. timestamp e \<noteq> None"
  shows "detect_system_crashes evs thr = Inr (fst (emit_all (crash_spec thr evs) ([], 0)))"
proof -
  define g where "g = foldl crash_group_step [] evs"
  have keys: "map fst g = stations_of evs"
    by (simp add: g_def crash_groups_keys stations_of_alt)
  then have d: "distinct (map fst g)"
    by (simp add: stations_of_alt distinct_set_add)
  have ne: "[] \<notin> set (stations_of evs)"
    by (auto simp: stations_of_alt set_foldl_set_add truthy_ids_def split: option.splits if_splits)
  have get: "\<And>k. k \<in> set (stations_of evs) \<Longrightarrow> dd_get g k = filter (\<lambda>e. station_id e = Some k) evs"
    using ne by (auto simp: g_def crash_groups_get)
  have "map (\<lambda>k. (k, dd_get g k)) (map fst g) =
        map (\<lambda>k. (k, filter (\<lambda>e. station_id e = Some k) evs)) (stations_of evs)"
    unfolding keys by (rule map_cong) (simp_all add: get)
  with grouping_entries[OF d]
  have g: "g = map (\<lambda>k. (k, filter (\<lambda>e. station_id e = Some k) evs)) (stations_of evs)"
    by simp
  have ts: "\<forall>entry \<in> set g. \<forall>x \<in> set (snd entry). timestamp x \<noteq> None"
    using assms by (subst g) auto
  have "map (\<lambda>entry. gaps thr (fst entry) (sort_key ts_of (snd entry))) g =
        map (\<lambda>s. gaps thr s (sort_key ts_of (filter (\<lambda>e. station_id e = Some s) evs)))
          (stations_of evs)"
    by (subst g) (simp add: comp_def)
  then show ?thesis
    using crash_stations_fold[OF ts, of thr "([], 0)"]
    by (simp add: detect_system_crashes_def g_def[symmetric] bindE_def crash_spec_def)
qed

subsection \<open>System crashes\<close>

text \<open>
  Claim C7. When every event carries a timestamp, the System Crash detector returns,
  station by station over the merged, chronologically sorted stream of each station,
  exactly one incident for every pair of consecutive events whose gap is greater
  than or equal to the threshold, stamped with the later event and carrying the gap
  as its duration; the incidents are numbered from E000 in that order.
\<close>

theorem system_crash_every_gap:
  assumes "\<forall>e \<in> set evs. timestamp e \<noteq> None"
  shows "\<exists>incs. detect_system_crashes evs thr = Inr incs
           \<and> map incident_body incs = crash_spec thr evs
           \<and> map event_id incs = map fmt_event_id [0..<length incs]"
proof -
  let ?incs = "fst (emit_all (crash_spec thr evs) ([], 0))"
  have b: "map incident_body ?incs = crash_spec thr evs"
    by (simp add: emit_all_bodies)
  then have "length ?incs = length (crash_spec thr evs)"
    by (metis length_map)
  moreover have "map event_id ?incs = map fmt_event_id [0..<0 + length (crash_spec thr evs)]"
    using emit_all_ids[of "([], 0)" "crash_spec thr evs"] by simp
  ultimately show ?thesis
    using detect_system_crashes_spec[OF assms, of thr] b by simp
qed

text \<open>A 150-second gap at SCC2 with threshold 120 gives exactly one incident, of
  duration 150.\<close>

theorem system_crash_every_gap_witness:
  "detect_system_crashes scenario_D 120 =
     Inr [\<lparr>inc_timestamp = 150, event_id = ''E000'',
           event_data = UnexpectedSystemsCrash ''SCC2'' 150\<rparr>]"
proof -
  have c: "crash_spec 120 scenario_D = [(150, UnexpectedSystemsCrash ''SCC2'' 150)]"
    by (simp add: crash_spec_def stations_of_def scenario_D_def plain_event_def set_add_def
        gaps_def ts_of_def)
  have "\<forall>e \<in> set scenario_D. timestamp e \<noteq> None"
    by (simp add: scenario_D_def plain_event_def)
  from system_crash_every_gap[OF this, of 120] obtain incs where
    i: "detect_system_crashes scenario_D 120 = Inr incs"
       "map incident_body incs = [(150, UnexpectedSystemsCrash ''SCC2'' 150)]"
       "map event_id incs = map fmt_event_id [0..<length incs]"
    using c by auto
  from i(2) obtain x where x: "incs = [x]" "incident_body x = (150, UnexpectedSystemsCrash ''SCC2'' 150)"
    by auto
  with i(3) have "event_id x = ''E000''" by (simp add: fmt_event_id_0)
  with x have "x = \<lparr>inc_timestamp = 150, event_id = ''E000'',
           event_data = UnexpectedSystemsCrash ''SCC2'' 150\<rparr>"
    by (cases x) (simp add: incident_body_def)
  with i(1) x show ?thesis by simp
qed

subsection \<open>Scanner avoidance and success operations\<close>

text \<open>
  Claim C8: what the code does where the claim fails. A POS transaction and an RFID
  reading at the same station and time, both without a SKU, give a Success Operation
  incident whose product SKU is absent (the two absent SKUs compare equal); and an
  RFID reading without a SKU next to a POS transaction for A gives a Scanner
  Avoidance incident naming the absent SKU.
\<close>

theorem absent_skus_correlate:
  "detect_success_operations [pos_event ''SCC1'' 0 None] [rfid_event ''SCC1'' 0 None] 10 =
     Inr [\<lparr>inc_timestamp = 0, event_id = ''E000'',
           event_data = SuccesOperation ''SCC1'' None None\<rparr>]
   \<and> detect_scanner_avoidance id [pos_event ''SCC1'' 0 (Some ''A'')]
        [rfid_event ''SCC1'' 0 None] 10 =
     Inr [\<lparr>inc_timestamp = 0, event_id = ''E000'',
           event_data = ScannerAvoidance ''SCC1'' None None\<rparr>]"
  by (simp add: detect_success_operations_def detect_scanner_avoidance_def so_group_step_def
      so_pos_step_def sa_group_step_def sa_pos_step_def sa_window_step_def bindE_def
      require_def pos_event_def rfid_event_def no_fields_def emit_def set_add_def
      fmt_event_id_0)





subsection \<open>The final log\<close>

lemma fmt_event_id_1: "fmt_event_id (Suc 0) = ''E001''"
  by code_simp

lemma demo_eval:
  "process_events id demo_input =
     Inr [\<lparr>inc_timestamp = 150, event_id = ''E000'',
           event_data = UnexpectedSystemsCrash ''SCC1'' 150\<rparr>,
          \<lparr>inc_timestamp = 150, event_id = ''E001'',
           event_data = InventoryDiscrepancy ''A'' 10 4\<rparr>]"
  by (simp add: process_events_def load_all_data_def detect_all_def demo_input_def
      sort_by_timestamp_def bindE_def require_def pos_event_def plain_event_def no_fields_def
      detect_scanner_avoidance_def sa_group_step_def sa_pos_step_def sa_window_step_def
      detect_barcode_switching_def bs_pos_step_def
      detect_weight_discrepancies_def wd_pos_step_def build_product_weights_def lookup_sku_def
      detect_long_queues_def detect_long_wait_times_def
      detect_system_crashes_def crash_group_step_def crash_station_step_def
      detect_inventory_discrepancies_def inv_pos_step_def inv_compare_step_def decrement_def
      detect_success_operations_def so_group_step_def so_pos_step_def
      renumber_def emit_def fmt_event_id_0 fmt_event_id_1 enumerate_eq_zip Let_def
      fl_sixty_percent)

lemma digit_val_digit_char: "d < 10 \<Longrightarrow> digit_val (digit_char d) = d"
  by (simp add: digit_val_def digit_char_def)

lemma decimal_val_snoc: "decimal_val (s @ [c]) = 10 * decimal_val s + digit_val c"
  by (simp add: decimal_val_def)

lemma decimal_val_digits: "decimal_val (digits n) = n"
proof (induction n rule: digits.induct)
  case (1 n)
  show ?case
  proof (cases "n < 10")
    case True
    then show ?thesis
      by (subst digits.simps) (simp add: decimal_val_def digit_val_digit_char)
  next
    case False
    with 1 have "decimal_val (digits (n div 10)) = n div 10" by simp
    with False show ?thesis
      by (subst digits.simps) (simp add: decimal_val_snoc digit_val_digit_char)
  qed
qed

lemma decimal_val_zeros:
  "decimal_val (replicate k (CHR ''0'') @ s) = decimal_val s"
proof -
  have "foldl (\<lambda>acc c. 10 * acc + digit_val c) 0 (replicate k (CHR ''0'')) = 0"
    by (induction k) (simp_all add: digit_val_def)
  then show ?thesis by (simp add: decimal_val_def)
qed

lemma decimal_val_fmt_03d: "decimal_val (fmt_03d n) = n"
  by (simp add: fmt_03d_def decimal_val_zeros decimal_val_digits)

lemma length_fmt_03d: "3 \<le> length (fmt_03d n)"
  by (simp add: fmt_03d_def)

lemma length_renumber: "length (renumber xs) = length xs"
  by (simp add: renumber_def)

lemma nth_renumber:
  "i < length xs \<Longrightarrow> renumber xs ! i = (xs ! i)\<lparr>event_id := fmt_event_id i\<rparr>"
  by (simp add: renumber_def nth_enumerate_eq)

lemma bodies_renumber: "map incident_body (renumber xs) = map incident_body xs"
  by (rule nth_equalityI) (simp_all add: length_renumber nth_renumber incident_body_def)

lemma timestamps_renumber: "map inc_timestamp (renumber xs) = map inc_timestamp xs"
  by (rule nth_equalityI) (simp_all add: length_renumber nth_renumber)

lemma bindE_Inr: "bindE m f = Inr y \<Longrightarrow> \<exists>x. m = Inr x \<and> f x = Inr y"
  by (cases m) (simp_all add: bindE_def)

lemma process_events_log:
  "process_events set_order d = Inr final \<Longrightarrow>
   \<exists>loaded detected. load_all_data d = Inr loaded \<and> detect_all set_order loaded = Inr detected
      \<and> final = renumber (sort_key inc_timestamp detected)"
  unfolding process_events_def
  by (auto dest!: bindE_Inr)

text \<open>
  Claim C2. Whenever the batch pipeline produces its log, the log is sorted ascending
  by timestamp and the identifier at (zero-based) position \<open>i\<close> is the letter E
  followed by \<open>i\<close> in decimal, padded with zeros to at least three digits: the
  numeral has at least three characters and denotes \<open>i\<close>, so identifiers are dense,
  zero-based and strictly increasing with the position.
\<close>

theorem log_sorted_and_numbered:
  assumes "process_events set_order d = Inr final"
  shows "sorted (map inc_timestamp final)
       \<and> (\<forall>i < length final. event_id (final ! i) = CHR ''E'' # fmt_03d i
              \<and> 3 \<le> length (fmt_03d i) \<and> decimal_val (fmt_03d i) = i)"
proof -
  from process_events_log[OF assms] obtain detected where
    final: "final = renumber (sort_key inc_timestamp detected)" by blast
  have "sorted (map inc_timestamp final)"
    unfolding final timestamps_renumber by (rule sorted_sort_key)
  moreover have "\<forall>i < length final. event_id (final ! i) = CHR ''E'' # fmt_03d i"
    unfolding final by (simp add: length_renumber nth_renumber fmt_event_id_def)
  ultimately show ?thesis
    by (simp add: length_fmt_03d decimal_val_fmt_03d)
qed

text \<open>On \<open>demo_input\<close> the log has two incidents, both stamped 150, numbered E000 and
  E001.\<close>

theorem log_sorted_and_numbered_witness:
  "(\<exists>final. process_events id demo_input = Inr final
      \<and> length final = 2
      \<and> sorted (map inc_timestamp final)
      \<and> event_id (final ! 0) = CHR ''E'' # fmt_03d 0
      \<and> event_id (final ! 1) = CHR ''E'' # fmt_03d 1
      \<and> decimal_val (fmt_03d 1) = 1)"
  using log_sorted_and_numbered[OF demo_eval] demo_eval
  by (simp add: All_less_Suc2 numeral_2_eq_2)

lemma bodies_filter_enumerate:
  "map incident_body (filter (\<lambda>i. inc_timestamp i = t)
      (map (\<lambda>(idx, ev). ev\<lparr>event_id := fmt_event_id idx\<rparr>) (enumerate n xs))) =
   map incident_body (filter (\<lambda>i. inc_timestamp i = t) xs)"
  by (induction xs arbitrary: n) (simp_all add: incident_body_def)

lemma bodies_filter_final:
  "map incident_body (filter (\<lambda>i. inc_timestamp i = t)
      (renumber (sort_key inc_timestamp xs))) =
   map incident_body (filter (\<lambda>i. inc_timestamp i = t) xs)"
  unfolding renumber_def bodies_filter_enumerate by (simp add: sort_key_stable)

lemma detect_all_parts:
  "detect_all set_order d = Inr detected \<Longrightarrow>
   \<exists>sa bs wd lq lw cr dis so.
      detect_scanner_avoidance set_order (pos_transactions d) (rfid_readings d) 10 = Inr sa
    \<and> detect_barcode_switching (pos_transactions d) (product_recognition d) 5 = Inr bs
    \<and> detect_weight_discrepancies (pos_transactions d) (products_list d) 20 = Inr wd
    \<and> detect_long_queues (queue_monitoring d) 5 = Inr lq
    \<and> detect_long_wait_times (queue_monitoring d) 300 = Inr lw
    \<and> detect_system_crashes
         (pos_transactions d @ rfid_readings d @ queue_monitoring d @ product_recognition d)
         120 = Inr cr
    \<and> detect_inventory_discrepancies (inventory_snapshots d) (pos_transactions d) 10 = Inr dis
    \<and> detect_success_operations (pos_transactions d) (rfid_readings d) 10 = Inr so
    \<and> detected = sa @ bs @ wd @ lq @ lw @ cr @ dis @ so"
  unfolding detect_all_def
  by (auto dest!: bindE_Inr)

text \<open>
  Against claim C3 as stated: on \<open>demo_input\<close> a System Crash incident and an
  Inventory Discrepancy incident carry the same timestamp 150, and the log lists
  the System Crash first, where the table's order puts Inventory Discrepancy first.
\<close>

theorem crash_precedes_inventory_on_tie:
  "process_events id demo_input =
     Inr [\<lparr>inc_timestamp = 150, event_id = ''E000'',
           event_data = UnexpectedSystemsCrash ''SCC1'' 150\<rparr>,
          \<lparr>inc_timestamp = 150, event_id = ''E001'',
           event_data = InventoryDiscrepancy ''A'' 10 4\<rparr>]"
  by (rule demo_eval)

text \<open>
  Claim C3, amended. In the final log the incidents of any one timestamp are, up to
  their identifiers, those the detectors returned for that timestamp, in the order in
  which \<open>process_events\<close> calls the detectors (Scanner Avoidance, Barcode
  Switching, Weight Discrepancy, Long Queue, Long Wait, System Crash, Inventory
  Discrepancy, Success Operation) and, within one detector, in its emission order.
\<close>

theorem ties_follow_call_order:
  assumes "process_events set_order d = Inr final"
  shows "\<exists>loaded sa bs wd lq lw cr dis so.
      load_all_data d = Inr loaded
    \<and> detect_scanner_avoidance set_order (pos_transactions loaded) (rfid_readings loaded) 10
        = Inr sa
    \<and> detect_barcode_switching (pos_transactions loaded) (product_recognition loaded) 5
        = Inr bs
    \<and> detect_weight_discrepancies (pos_transactions loaded) (products_list loaded) 20 = Inr wd
    \<and> detect_long_queues (queue_monitoring loaded) 5 = Inr lq
    \<and> detect_long_wait_times (queue_monitoring loaded) 300 = Inr lw
    \<and> detect_system_crashes
         (pos_transactions loaded @ rfid_readings loaded @ queue_monitoring loaded
            @ product_recognition loaded) 120 = Inr cr
    \<and> detect_inventory_discrepancies (inventory_snapshots loaded) (pos_transactions loaded) 10
        = Inr dis
    \<and> detect_success_operations (pos_transactions loaded) (rfid_readings loaded) 10 = Inr so
    \<and> (\<forall>t. map incident_body (filter (\<lambda>i. inc_timestamp i = t) final) =
            map incident_body
              (filter (\<lambda>i. inc_timestamp i = t) (sa @ bs @ wd @ lq @ lw @ cr @ dis @ so)))"
proof -
  from process_events_log[OF assms] obtain loaded detected where
    l: "load_all_data d = Inr loaded" and
    a: "detect_all set_order loaded = Inr detected" and
    f: "final = renumber (sort_key inc_timestamp detected)" by blast
  from detect_all_parts[OF a] obtain sa bs wd lq lw cr dis so where
    p: "detect_scanner_avoidance set_order (pos_transactions loaded) (rfid_readings loaded) 10
          = Inr sa"
       "detect_barcode_switching (pos_transactions loaded) (product_recognition loaded) 5
          = Inr bs"
       "detect_weight_discrepancies (pos_transactions loaded) (products_list loaded) 20 = Inr wd"
       "detect_long_queues (queue_monitoring loaded) 5 = Inr lq"
       "detect_long_wait_times (queue_monitoring loaded) 300 = Inr lw"
       "detect_system_crashes
         (pos_transactions loaded @ rfid_readings loaded @ queue_monitoring loaded
            @ product_recognition loaded) 120 = Inr cr"
       "detect_inventory_discrepancies (inventory_snapshots loaded) (pos_transactions loaded) 10
          = Inr dis"
       "detect_success_operations (pos_transactions loaded) (rfid_readings loaded) 10 = Inr so"
       and d: "detected = sa @ bs @ wd @ lq @ lw @ cr @ dis @ so" by blast
  have "\<forall>t. map incident_body (filter (\<lambda>i. inc_timestamp i = t) final) =
            map incident_body
              (filter (\<lambda>i. inc_timestamp i = t) (sa @ bs @ wd @ lq @ lw @ cr @ dis @ so))"
    unfolding f bodies_filter_final d by simp
  with l p show ?thesis by blast
qed

theorem ties_follow_call_order_witness:
  "\<exists>loaded sa bs wd lq lw cr dis so.
      load_all_data demo_input = Inr loaded
    \<and> detect_scanner_avoidance id (pos_transactions loaded) (rfid_readings loaded) 10 = Inr sa
    \<and> detect_barcode_switching (pos_transactions loaded) (product_recognition loaded) 5
        = Inr bs
    \<and> detect_weight_discrepancies (pos_transactions loaded) (products_list loaded) 20 = Inr wd
    \<and> detect_long_queues (queue_monitoring loaded) 5 = Inr lq
    \<and> detect_long_wait_times (queue_monitoring loaded) 300 = Inr lw
    \<and> detect_system_crashes
         (pos_transactions loaded @ rfid_readings loaded @ queue_monitoring loaded
            @ product_recognition loaded) 120 = Inr cr
    \<and> detect_inventory_discrepancies (inventory_snapshots loaded) (pos_transactions loaded) 10
        = Inr dis
    \<and> detect_success_operations (pos_transactions loaded) (rfid_readings loaded) 10 = Inr so
    \<and> (\<forall>t. map incident_body (filter (\<lambda>i. inc_timestamp i = t)
               [\<lparr>inc_timestamp = 150, event_id = ''E000'',
                  event_data = UnexpectedSystemsCrash ''SCC1'' 150\<rparr>,
                \<lparr>inc_timestamp = 150, event_id = ''E001'',
                  event_data = InventoryDiscrepancy ''A'' 10 4\<rparr>]) =
            map incident_body
              (filter (\<lambda>i. inc_timestamp i = t) (sa @ bs @ wd @ lq @ lw @ cr @ dis @ so)))"
  by (rule ties_follow_call_order[OF demo_eval])

subsection \<open>Malformed records\<close>

text \<open>
  Claim C9: what the code does where the claim fails. One queue record without a
  timestamp, or one POS record without a station identifier, is not skipped: the
  whole run ends in \<open>KeyError\<close> and produces no log.
\<close>

theorem malformed_record_not_skipped:
  "process_events id untimed_input = Inl (KeyError ''timestamp'')
   \<and> process_events id unstationed_input = Inl (KeyError ''station_id'')"
  by (simp add: process_events_def load_all_data_def detect_all_def demo_input_def
      untimed_input_def unstationed_input_def
      sort_by_timestamp_def bindE_def require_def pos_event_def plain_event_def no_fields_def
      detect_scanner_avoidance_def sa_group_step_def sa_pos_step_def)

subsection \<open>Weight discrepancies at the tolerance boundary\<close>

text \<open>The floats of the batch test for a 7 g product scanned at 8.4 g with 20 per cent:
  the tolerance is computed as 1.4000000000000001 and the difference as
  1.4000000000000004.\<close>

lemma fl_one_fifth: "fl (1 / 5) = 3602879701896397 / 18014398509481984"
  by (simp add: fl_eval)

lemma fl_eight_point_four: "fl (42 / 5) = 4728779608739021 / 562949953421312"
  by (simp add: fl_eval)

lemma fl_tolerance_of_seven: "fl (7 * fl (1 / 5)) = 6305039478318695 / 4503599627370496"
  by (simp add: fl_one_fifth) (simp add: fl_eval)

lemma fl_diff_of_seven: "fl (fl (42 / 5) - 7) = 788129934789837 / 562949953421312"
  by (simp add: fl_eight_point_four) (simp add: fl_eval)

lemma py_int_eight_point_four: "py_int (fl (42 / 5)) = 8"
  by (simp add: fl_eight_point_four py_int_def floor_rat_numeral_div)

lemma fl_nineteen_twentieths: "fl (19 / 20) = 4278419646001971 / 4503599627370496"
  by (simp add: fl_eval)

text \<open>
  Claim C6: what the code does where the claim fails. The catalogue weight is 7 g and
  the tolerance 20 per cent, so the upper boundary is 8.4 g; for the scanned float 8.4
  the batch detector emits a Weight Discrepancy incident, because the rounded
  difference exceeds the rounded tolerance. And with catalogue weight 1.25 g the lower
  boundary is 1 g; a scanned weight of 0 g is one unit beyond it and the batch
  detector, which tests the truth value of the weight, emits nothing, where the
  streaming detector, which tests for \<^verbatim>\<open>None\<close>, emits the incident.
\<close>

theorem weight_at_boundary_fires:
  "7 * (1 + 20 / 100) = (42 / 5 :: rat)
   \<and> detect_weight_discrepancies [weighed_pos (fl (42 / 5))] [seven_gram_product] 20 =
       Inr [\<lparr>inc_timestamp = 0, event_id = ''E000'',
             event_data = WeightDiscrepancies (Some ''SCC1'') None ''A'' 7 8\<rparr>]
   \<and> 5 / 4 * (1 - 20 / 100) - 1 = (0 :: rat)
   \<and> detect_weight_discrepancies [weighed_pos 0] [light_product] 20 = Inr []
   \<and> detect_weight_discrepancy (weighed_record 0) [''A'' \<mapsto> Number (5 / 4)] =
       Inr (Some \<lparr>inc_timestamp = 0, event_id = ''E003'',
                  event_data = WeightDiscrepancies (Some ''SCC1'') None ''A'' (5 / 4) 0\<rparr>)"
proof (intro conjI)
  show "detect_weight_discrepancies [weighed_pos (fl (42 / 5))] [seven_gram_product] 20 =
       Inr [\<lparr>inc_timestamp = 0, event_id = ''E000'',
             event_data = WeightDiscrepancies (Some ''SCC1'') None ''A'' 7 8\<rparr>]"
    by (simp add: detect_weight_discrepancies_def wd_pos_step_def build_product_weights_def
        product_weights_step_def seven_gram_product_def weighed_pos_def no_fields_def
        bindE_def require_def lookup_sku_def truthy_num_def emit_def fmt_event_id_0
        fl_tolerance_of_seven fl_diff_of_seven py_int_eight_point_four)
      (simp add: fl_eight_point_four py_int_def)
  show "detect_weight_discrepancies [weighed_pos 0] [light_product] 20 = Inr []"
    by (simp add: detect_weight_discrepancies_def wd_pos_step_def build_product_weights_def
        product_weights_step_def light_product_def weighed_pos_def no_fields_def bindE_def
        require_def lookup_sku_def truthy_num_def)
  show "detect_weight_discrepancy (weighed_record 0) [''A'' \<mapsto> Number (5 / 4)] =
       Inr (Some \<lparr>inc_timestamp = 0, event_id = ''E003'',
                  event_data = WeightDiscrepancies (Some ''SCC1'') None ''A'' (5 / 4) 0\<rparr>)"
    by (simp add: detect_weight_discrepancy_def weighed_record_def no_fields_def
        fl_nineteen_twentieths)
      (simp add: fl_eval)
qed simp_all

subsection \<open>Resynchronisation of the streaming ledger\<close>




subsection \<open>Scanner avoidance, transaction by transaction\<close>






end
